theory Spec2Isabelle
  imports Main
begin

section \<open>The durable message log of the chat server (src/server.js)\<close>

text \<open>
  The server keeps its messages in an append-only file of JSON lines
  (\<^verbatim>\<open>data/messages.jsonl\<close>) and, beside it, an in-memory map from message id to
  owner. This theory embeds the functions that touch the two:
  \<^verbatim>\<open>rememberMessage\<close>, \<^verbatim>\<open>lookupMessageOwner\<close>, \<^verbatim>\<open>readRecentMessages\<close>, the
  \<^verbatim>\<open>GET /messages\<close> handler and the \<^verbatim>\<open>delete_message\<close> socket handler.

  Modelling decisions:
  \<^item> A JSON field value is a scalar \<open>jval\<close>; \<open>truthy\<close> is JavaScript's boolean
    coercion and HOL equality is \<^verbatim>\<open>===\<close> on scalars (JSON has no NaN).
  \<^item> The \<^verbatim>\<open>timestamp\<close> field is only used arithmetically
    (\<^verbatim>\<open>(a.timestamp||0)-(b.timestamp||0)\<close>); it is an integer or absent.
  \<^item> The file is the list of its non-empty lines
    (\<^verbatim>\<open>data.split(/\r?\n/).filter(Boolean)\<close>), each line being what
    \<^verbatim>\<open>JSON.parse\<close> makes of it: an exception (\<open>Malformed\<close>), a falsy value
    (\<open>Falsy\<close>), or an object (\<open>Parsed\<close>). A truthy value that is not an object
    has none of the fields read here and behaves as the object with every field
    undefined. \<^verbatim>\<open>JSON.stringify\<close> followed by \<^verbatim>\<open>JSON.parse\<close> is the identity on
    such objects, so the line written for \<open>m\<close> is \<open>Parsed m\<close>.
  \<^item> \<^verbatim>\<open>fs.appendFile\<close> is asynchronous and its callback ignores the error. The
    model runs handlers one after the other; whether a write reaches the disk is a
    boolean argument of the operation that issues it.
  \<^item> The result of reading the file is a \<open>line list option\<close>, \<open>None\<close> being the
    error of \<^verbatim>\<open>fs.readFile\<close> (missing file, I/O error).
\<close>

subsection \<open>JSON values and log lines\<close>

datatype jval = JUndefined | JNull | JBool bool | JNum int | JStr string

fun truthy :: "jval \<Rightarrow> bool" where
  "truthy JUndefined = False"
| "truthy JNull = False"
| "truthy (JBool b) = b"
| "truthy (JNum n) = (n \<noteq> 0)"
| "truthy (JStr s) = (s \<noteq> [])"

record jobj =
  m_id :: jval
  m_type :: jval
  m_username :: jval
  m_text :: jval
  m_url :: jval
  m_mime :: jval
  m_timestamp :: "int option"
  m_avatarUrl :: jval
  m_by :: jval

datatype line = Malformed | Falsy | Parsed jobj

subsection \<open>The server state\<close>

text \<open>
  \<^verbatim>\<open>messages\<close> is the map \<^verbatim>\<open>id -> { owner, type, url }\<close>, \<^verbatim>\<open>messageOrder\<close> the
  array of ids, \<^verbatim>\<open>messagesFile\<close> the file on disk (\<open>None\<close> while it does not
  exist), \<open>emitted\<close> the ids broadcast as \<^verbatim>\<open>message_deleted\<close>.
\<close>

record entry =
  rec_owner :: jval
  rec_type :: jval
  rec_url :: jval

record server =
  messages :: "jval \<rightharpoonup> entry"
  messageOrder :: "jval list"
  messagesFile :: "line list option"
  emitted :: "jval list"

definition init :: server where
  "init = \<lparr>messages = Map.empty, messageOrder = [], messagesFile = None, emitted = []\<rparr>"

text \<open>
  \<^verbatim>\<open>fs.appendFile(messagesFile, line, () => {})\<close>: the file is created when missing;
  when the write fails the file is as before and nobody is told.
\<close>

definition appendFile :: "bool \<Rightarrow> line \<Rightarrow> line list option \<Rightarrow> line list option" where
  "appendFile ok l f =
     (if ok then Some ((case f of None \<Rightarrow> [] | Some ls \<Rightarrow> ls) @ [l]) else f)"

text \<open>\<^verbatim>\<open>rememberMessage(m)\<close>, lines 98-105.\<close>

definition rememberMessage :: "bool \<Rightarrow> jobj \<Rightarrow> server \<Rightarrow> server" where
  "rememberMessage ok m s =
     s\<lparr>messages := (messages s)(m_id m \<mapsto>
          \<lparr>rec_owner = m_username m, rec_type = m_type m,
           rec_url = (if truthy (m_url m) then m_url m else JNull)\<rparr>),
       messageOrder := messageOrder s @ [m_id m],
       messagesFile := appendFile ok (Parsed m) (messagesFile s)\<rparr>"

subsection \<open>Ownership lookup in the log\<close>

record info =
  info_owner :: jval
  info_deleted :: bool

text \<open>
  The loop of \<^verbatim>\<open>lookupMessageOwner\<close> (lines 111-118) runs from the last line to the
  first; \<open>lookup_loop\<close> takes the lines in that order.
\<close>

fun lookup_loop :: "line list \<Rightarrow> jval \<Rightarrow> info" where
  "lookup_loop [] mid = \<lparr>info_owner = JNull, info_deleted = False\<rparr>"
| "lookup_loop (Malformed # ls) mid = lookup_loop ls mid"
| "lookup_loop (Falsy # ls) mid = lookup_loop ls mid"
| "lookup_loop (Parsed obj # ls) mid =
     (if m_type obj = JStr ''delete'' \<and> m_id obj = mid
        then \<lparr>info_owner = JUndefined, info_deleted = True\<rparr>
      else if m_id obj = mid \<and> truthy (m_username obj)
        then \<lparr>info_owner = m_username obj, info_deleted = False\<rparr>
      else lookup_loop ls mid)"

definition lookupMessageOwner :: "line list option \<Rightarrow> jval \<Rightarrow> info" where
  "lookupMessageOwner data mid =
     (case data of
        None \<Rightarrow> \<lparr>info_owner = JNull, info_deleted = False\<rparr>
      | Some lines \<Rightarrow> lookup_loop (rev lines) mid)"

subsection \<open>Reconstruction of the recent history\<close>

text \<open>The \<^verbatim>\<open>for (const line of slice)\<close> loop, lines 135-141, with its two accumulators.\<close>

fun scan_slice :: "line list \<Rightarrow> jval set \<times> jobj list \<Rightarrow> jval set \<times> jobj list" where
  "scan_slice [] acc = acc"
| "scan_slice (Malformed # ls) acc = scan_slice ls acc"
| "scan_slice (Falsy # ls) acc = scan_slice ls acc"
| "scan_slice (Parsed obj # ls) (tombstones, all) =
     (if m_type obj = JStr ''delete'' \<and> truthy (m_id obj)
        then scan_slice ls (insert (m_id obj) tombstones, all)
      else if truthy (m_id obj)
        then scan_slice ls (tombstones, all @ [obj])
      else scan_slice ls (tombstones, all))"

text \<open>\<^verbatim>\<open>a.timestamp || 0\<close>, the sort key of line 144.\<close>

definition ts_key :: "jobj \<Rightarrow> int" where
  "ts_key m = (case m_timestamp m of None \<Rightarrow> 0 | Some t \<Rightarrow> t)"

text \<open>
  \<^verbatim>\<open>readRecentMessages(limit)\<close>, lines 124-148. \<^verbatim>\<open>Array.prototype.sort\<close> is stable
  and the comparator is the difference of two integer keys, which is what
  \<open>sort_key\<close> (insertion sort, stable) computes.
\<close>

definition readRecentMessages :: "int \<Rightarrow> line list option \<Rightarrow> jobj list" where
  "readRecentMessages limit data =
     (case data of
        None \<Rightarrow> []
      | Some lines \<Rightarrow>
          let maxScan = 5000;
              start = max 0 (int (length lines) - max (limit * 5) maxScan);
              slice = drop (nat start) lines;
              (tombstones, all) = scan_slice slice ({}, []);
              filtered = filter (\<lambda>m. m_id m \<notin> tombstones) all;
              sorted = sort_key ts_key filtered
          in drop (nat (max 0 (int (length sorted) - limit))) sorted)"

text \<open>
  The \<^verbatim>\<open>GET /messages\<close> handler, lines 151-155. The argument of \<open>effective_limit\<close> is
  the result of \<^verbatim>\<open>parseInt(req.query.limit, 10)\<close>, \<open>None\<close> being NaN (parameter absent
  or without a leading integer); \<^verbatim>\<open>|| 200\<close> replaces NaN and 0.
\<close>

definition effective_limit :: "int option \<Rightarrow> int" where
  "effective_limit p =
     max 1 (min 1000 (case p of None \<Rightarrow> 200 | Some n \<Rightarrow> if n = 0 then 200 else n))"

definition get_messages :: "int option \<Rightarrow> line list option \<Rightarrow> jobj list" where
  "get_messages p data = readRecentMessages (effective_limit p) data"

subsection \<open>The delete handler\<close>

text \<open>
  \<^verbatim>\<open>socket.on("delete_message", ...)\<close>, lines 273-292. \<open>me\<close> is the requester's name
  (\<^verbatim>\<open>socket.data.username || users.get(socket.id) || ""\<close>), \<open>now\<close> is \<^verbatim>\<open>Date.now()\<close>,
  \<open>mid\<close> is whatever the client sent as id. The result is the acknowledgement and the
  new state.
\<close>

definition tombstone :: "jval \<Rightarrow> int \<Rightarrow> string \<Rightarrow> jobj" where
  "tombstone mid now me =
     \<lparr>m_id = mid, m_type = JStr ''delete'', m_username = JUndefined, m_text = JUndefined,
      m_url = JUndefined, m_mime = JUndefined, m_timestamp = Some now,
      m_avatarUrl = JUndefined, m_by = JStr me\<rparr>"

definition delete_commit :: "bool \<Rightarrow> int \<Rightarrow> string \<Rightarrow> jval \<Rightarrow> jval \<Rightarrow> server \<Rightarrow> bool \<times> server" where
  "delete_commit ok now me mid owner s =
     (if \<not> truthy owner \<or> owner \<noteq> JStr me then (False, s)
      else (True,
            s\<lparr>messages := (messages s)(mid := None),
              messagesFile := appendFile ok (Parsed (tombstone mid now me)) (messagesFile s),
              emitted := emitted s @ [mid]\<rparr>))"

definition delete_message :: "bool \<Rightarrow> int \<Rightarrow> string \<Rightarrow> jval \<Rightarrow> server \<Rightarrow> bool \<times> server" where
  "delete_message ok now me mid s =
     (case mid of
        JStr _ \<Rightarrow>
          if me = [] then (False, s)
          else
            let owner = (case messages s mid of None \<Rightarrow> JUndefined | Some r \<Rightarrow> rec_owner r)
            in if \<not> truthy owner then
                 let info = lookupMessageOwner (messagesFile s) mid
                 in if info_deleted info then (False, s)
                    else delete_commit ok now me mid (info_owner info) s
               else delete_commit ok now me mid owner s
      | _ \<Rightarrow> (False, s))"


text \<open>
  The payload the \<^verbatim>\<open>message\<close> handler builds for a text message, line 246:
  \<open>newid\<close> is the result of \<^verbatim>\<open>newId()\<close>, \<open>now\<close> of \<^verbatim>\<open>Date.now()\<close>, \<open>avatar\<close>
  is \<^verbatim>\<open>socket.data.avatarUrl || null\<close>.
\<close>

definition text_payload :: "string \<Rightarrow> string \<Rightarrow> string \<Rightarrow> int \<Rightarrow> jval \<Rightarrow> jobj" where
  "text_payload newid name msg now avatar =
     \<lparr>m_id = JStr newid, m_type = JStr ''text'', m_username = JStr name, m_text = JStr msg,
      m_url = JUndefined, m_mime = JUndefined, m_timestamp = Some now,
      m_avatarUrl = (if truthy avatar then avatar else JNull), m_by = JUndefined\<rparr>"


subsection \<open>The reconstruction as the specification words it\<close>

text \<open>
  The log's records: a \<^emph>\<open>Delete\<close> record is an object of type \<^verbatim>\<open>"delete"\<close> with an
  id, a \<^emph>\<open>Create\<close> record is any other object with an id. \<open>recent_spec\<close> follows
  section 4.4 of the specification: take the bounded suffix, collect the tombstoned
  ids, keep the Create records that are not tombstoned, sort by timestamp, return the
  last \<open>limit\<close> entries.
\<close>

fun objects :: "line list \<Rightarrow> jobj list" where
  "objects [] = []"
| "objects (Parsed obj # ls) = obj # objects ls"
| "objects (_ # ls) = objects ls"

definition is_delete :: "jobj \<Rightarrow> bool" where
  "is_delete obj = (m_type obj = JStr ''delete'' \<and> truthy (m_id obj))"

definition is_create :: "jobj \<Rightarrow> bool" where
  "is_create obj = (truthy (m_id obj) \<and> m_type obj \<noteq> JStr ''delete'')"

definition scan_window :: "int \<Rightarrow> nat" where
  "scan_window limit = nat (max (limit * 5) 5000)"

definition suffix_scanned :: "int \<Rightarrow> line list \<Rightarrow> line list" where
  "suffix_scanned limit lines = drop (length lines - scan_window limit) lines"

definition tombstoned_ids :: "line list \<Rightarrow> jval set" where
  "tombstoned_ids ls = set (map m_id (filter is_delete (objects ls)))"

definition survivors :: "line list \<Rightarrow> jobj list" where
  "survivors ls =
     filter (\<lambda>m. m_id m \<notin> tombstoned_ids ls) (filter is_create (objects ls))"

definition last_entries :: "int \<Rightarrow> 'a list \<Rightarrow> 'a list" where
  "last_entries limit xs = drop (length xs - nat limit) xs"

definition recent_spec :: "int \<Rightarrow> line list \<Rightarrow> jobj list" where
  "recent_spec limit lines =
     last_entries limit (sort_key ts_key (survivors (suffix_scanned limit lines)))"

subsection \<open>Ownership resolution as the specification words it\<close>

text \<open>
  Section 4.3: scan the log from the tail backward; the first record whose id matches
  decides. \<open>outcome\<close> is how the delete handler reads the object returned by
  \<^verbatim>\<open>lookupMessageOwner\<close> (lines 282-285): \<^verbatim>\<open>deleted\<close> first, then a truthy owner.
\<close>

datatype resolution = Exists jval | Deleted | Unknown

definition resolve_spec :: "line list \<Rightarrow> jval \<Rightarrow> resolution" where
  "resolve_spec lines mid =
     (case find (\<lambda>obj. m_id obj = mid) (objects (rev lines)) of
        None \<Rightarrow> Unknown
      | Some obj \<Rightarrow> if m_type obj = JStr ''delete'' then Deleted else Exists (m_username obj))"

definition outcome :: "info \<Rightarrow> resolution" where
  "outcome i =
     (if info_deleted i then Deleted
      else if truthy (info_owner i) then Exists (info_owner i) else Unknown)"

subsection \<open>Runs of the server\<close>

text \<open>
  A run is a sequence of requests handled one after the other: a message is created
  (\<^verbatim>\<open>rememberMessage\<close> on the payload built by the \<^verbatim>\<open>message\<close> handler), a delete is
  requested, or the process restarts, which empties the in-memory structures and keeps
  the file. The boolean of a request says whether its append reaches the disk.
\<close>

datatype request = Create bool jobj | Delete bool int string jval | Restart

fun step :: "request \<Rightarrow> server \<Rightarrow> server" where
  "step (Create ok m) s = rememberMessage ok m s"
| "step (Delete ok now me mid) s = snd (delete_message ok now me mid s)"
| "step Restart s = s\<lparr>messages := Map.empty, messageOrder := [], emitted := []\<rparr>"

fun run :: "server \<Rightarrow> request list \<Rightarrow> server" where
  "run s [] = s"
| "run s (r # rs) = run (step r s) rs"

definition file_lines :: "server \<Rightarrow> line list" where
  "file_lines s = (case messagesFile s of None \<Rightarrow> [] | Some ls \<Rightarrow> ls)"




fun creates_id :: "jval \<Rightarrow> request \<Rightarrow> bool" where
  "creates_id x (Create ok m) = (m_id m = x)"
| "creates_id x _ = False"





section \<open>Properties\<close>

subsection \<open>What the scan loop computes\<close>

lemma objects_append: "objects (xs @ ys) = objects xs @ objects ys"
  by (induction xs rule: objects.induct) simp_all


lemma set_objects: "obj \<in> set (objects ls) \<longleftrightarrow> Parsed obj \<in> set ls"
  by (induction ls rule: objects.induct) auto

lemma scan_slice_char:
  "scan_slice ls (T, A) =
     (T \<union> set (map m_id (filter is_delete (objects ls))),
      A @ filter is_create (objects ls))"
proof (induction ls arbitrary: T A)
  case Nil
  show ?case by simp
next
  case (Cons l ls)
  show ?case
  proof (cases l)
    case (Parsed obj)
    with Cons show ?thesis by (auto simp: is_delete_def is_create_def)
  qed (simp_all add: Cons)
qed

lemma slice_is_suffix:
  "drop (nat (max 0 (int (length lines) - max (limit * 5) 5000))) lines =
     suffix_scanned limit lines"
proof -
  have "nat (max 0 (int (length lines) - max (limit * 5) 5000)) =
        length lines - scan_window limit"
    by (simp add: scan_window_def)
  then show ?thesis
    by (simp only: suffix_scanned_def)
qed

lemma last_entries_code:
  "drop (nat (max 0 (int (length xs) - limit))) xs = last_entries limit xs"
proof -
  have "nat (max 0 (int (length xs) - limit)) = length xs - nat limit \<or>
        (length xs \<le> nat (max 0 (int (length xs) - limit)) \<and> length xs \<le> length xs - nat limit)"
    by (cases "0 \<le> limit") auto
  then show ?thesis
    by (auto simp: last_entries_def)
qed

lemma readRecentMessages_char:
  "readRecentMessages limit (Some lines) = recent_spec limit lines"
proof -
  have "readRecentMessages limit (Some lines) =
        (let slice = suffix_scanned limit lines;
             (tombstones, all) = scan_slice slice ({}, []);
             filtered = filter (\<lambda>m. m_id m \<notin> tombstones) all;
             sorted = sort_key ts_key filtered
         in drop (nat (max 0 (int (length sorted) - limit))) sorted)"
    unfolding readRecentMessages_def Let_def
    by (simp only: option.case slice_is_suffix)
  also have "\<dots> = recent_spec limit lines"
    by (simp add: Let_def scan_slice_char last_entries_code recent_spec_def
        survivors_def tombstoned_ids_def)
  finally show ?thesis .
qed







subsection \<open>What the lookup loop computes\<close>

lemma lookup_loop_char:
  assumes "\<forall>obj\<in>set (objects ls).
             m_id obj = mid \<and> m_type obj \<noteq> JStr ''delete'' \<longrightarrow> truthy (m_username obj)"
  shows "outcome (lookup_loop ls mid) =
         (case find (\<lambda>obj. m_id obj = mid) (objects ls) of
            None \<Rightarrow> Unknown
          | Some obj \<Rightarrow>
              if m_type obj = JStr ''delete'' then Deleted else Exists (m_username obj))"
  using assms
proof (induction ls mid rule: lookup_loop.induct)
  case (1 mid)
  show ?case by (simp add: outcome_def)
next
  case (2 ls mid)
  then show ?case by simp
next
  case (3 ls mid)
  then show ?case by simp
next
  case (4 obj ls mid)
  then show ?case by (auto simp: outcome_def)
qed

subsection \<open>Appending a record\<close>

lemma file_lines_append:
  "file_lines (s\<lparr>messagesFile := appendFile True l (messagesFile s)\<rparr>) = file_lines s @ [l]"
  by (simp add: file_lines_def appendFile_def split: option.splits)

lemma recent_file_lines:
  "readRecentMessages limit (messagesFile s) = recent_spec limit (file_lines s)"
proof (cases "messagesFile s")
  case None
  then show ?thesis
    by (simp add: readRecentMessages_def file_lines_def recent_spec_def survivors_def
        suffix_scanned_def last_entries_def)
next
  case (Some ls)
  then show ?thesis
    by (simp add: readRecentMessages_char file_lines_def)
qed







lemma survivors_are_creates:
  "m \<in> set (survivors ls) \<Longrightarrow> is_create m \<and> Parsed m \<in> set ls \<and> m_id m \<notin> tombstoned_ids ls"
  by (auto simp: survivors_def set_objects)



subsection \<open>Deleting twice, duplicate tombstones\<close>

lemma delete_success_state:
  assumes "fst (delete_message ok now me mid s)"
  shows "snd (delete_message ok now me mid s) =
           s\<lparr>messages := (messages s)(mid := None),
             messagesFile := appendFile ok (Parsed (tombstone mid now me)) (messagesFile s),
             emitted := emitted s @ [mid]\<rparr>
         \<and> (\<exists>x. mid = JStr x) \<and> me \<noteq> []"
  using assms
  by (auto simp: delete_message_def delete_commit_def Let_def split: jval.splits if_splits)

lemma delete_failure_state:
  "\<not> fst (delete_message ok now me mid s) \<Longrightarrow> snd (delete_message ok now me mid s) = s"
  by (auto simp: delete_message_def delete_commit_def Let_def split: jval.splits if_splits)








subsection \<open>Runs only append to the log\<close>

lemma step_appends:
  "\<exists>post. file_lines (step r s) = file_lines s @ post \<and>
          (\<forall>m\<in>set (objects post). m_type m = JStr ''delete'' \<or> creates_id (m_id m) r)"
proof (cases r)
  case (Create ok m)
  show ?thesis
  proof (cases ok)
    case True
    have "file_lines (step r s) = file_lines s @ [Parsed m]"
      by (simp add: Create True rememberMessage_def file_lines_def appendFile_def
          split: option.splits)
    moreover have "\<forall>m'\<in>set (objects [Parsed m]). m_type m' = JStr ''delete'' \<or> creates_id (m_id m') r"
      by (simp add: Create)
    ultimately show ?thesis by blast
  next
    case False
    have "file_lines (step r s) = file_lines s @ []"
      by (simp add: Create False rememberMessage_def file_lines_def appendFile_def)
    then show ?thesis by fastforce
  qed
next
  case (Delete ok now me mid)
  show ?thesis
  proof (cases "fst (delete_message ok now me mid s) \<and> ok")
    case True
    then have ok: "ok" and f: "fst (delete_message True now me mid s)"
      by auto
    have "snd (delete_message ok now me mid s) =
           s\<lparr>messages := (messages s)(mid := None),
             messagesFile := appendFile True (Parsed (tombstone mid now me)) (messagesFile s),
             emitted := emitted s @ [mid]\<rparr>"
      using delete_success_state [OF f] ok by simp
    then have "file_lines (step r s) = file_lines s @ [Parsed (tombstone mid now me)]"
      by (simp add: Delete file_lines_def appendFile_def split: option.splits)
    moreover have "\<forall>m'\<in>set (objects [Parsed (tombstone mid now me)]).
        m_type m' = JStr ''delete'' \<or> creates_id (m_id m') r"
      by (simp add: tombstone_def)
    ultimately show ?thesis by blast
  next
    case False
    have "file_lines (step r s) = file_lines s @ []"
    proof (cases "fst (delete_message ok now me mid s)")
      case True
      with False have "\<not> ok" by simp
      then show ?thesis
        using delete_success_state [OF True]
        by (simp add: Delete file_lines_def appendFile_def)
    next
      case False
      then show ?thesis
        by (simp add: Delete delete_failure_state)
    qed
    then show ?thesis by fastforce
  qed
next
  case Restart
  have "file_lines (step r s) = file_lines s @ []"
    by (simp add: Restart file_lines_def)
  then show ?thesis by fastforce
qed

lemma run_appends:
  "\<exists>post. file_lines (run s rs) = file_lines s @ post \<and>
          (\<forall>m\<in>set (objects post).
             m_type m = JStr ''delete'' \<or> (\<exists>r\<in>set rs. creates_id (m_id m) r))"
proof (induction rs arbitrary: s)
  case Nil
  have "file_lines (run s []) = file_lines s @ []" by simp
  then show ?case by fastforce
next
  case (Cons r rs)
  obtain p1 where p1: "file_lines (step r s) = file_lines s @ p1"
    "\<forall>m\<in>set (objects p1). m_type m = JStr ''delete'' \<or> creates_id (m_id m) r"
    using step_appends by blast
  obtain p2 where p2: "file_lines (run (step r s) rs) = file_lines (step r s) @ p2"
    "\<forall>m\<in>set (objects p2). m_type m = JStr ''delete'' \<or> (\<exists>r\<in>set rs. creates_id (m_id m) r)"
    using Cons.IH by blast
  have "file_lines (run s (r # rs)) = file_lines s @ (p1 @ p2)"
    using p1(1) p2(1) by simp
  moreover have "\<forall>m\<in>set (objects (p1 @ p2)).
      m_type m = JStr ''delete'' \<or> (\<exists>r'\<in>set (r # rs). creates_id (m_id m) r')"
    using p1(2) p2(2) by (auto simp: objects_append)
  ultimately show ?case by blast
qed

lemma recent_excludes_tombstoned:
  assumes "m_type t = JStr ''delete''"
    and "\<forall>m\<in>set (objects post). m_id m = m_id t \<longrightarrow> m_type m = JStr ''delete''"
  shows "m_id t \<notin> m_id ` set (recent_spec limit (pre @ Parsed t # post))"
proof
  define L where "L = pre @ Parsed t # post"
  define k where "k = length L - scan_window limit"
  assume "m_id t \<in> m_id ` set (recent_spec limit (pre @ Parsed t # post))"
  then obtain m where m: "m \<in> set (recent_spec limit L)" "m_id m = m_id t"
    by (auto simp: L_def)
  from m(1) have "m \<in> set (survivors (suffix_scanned limit L))"
    by (auto simp: recent_spec_def last_entries_def dest: in_set_dropD)
  then have sv: "is_create m" "Parsed m \<in> set (drop k L)"
    "m_id m \<notin> tombstoned_ids (drop k L)"
    using survivors_are_creates [of m "suffix_scanned limit L"]
    by (simp_all add: suffix_scanned_def k_def)
  show False
  proof (cases "k \<le> length pre")
    case True
    then have "Parsed t \<in> set (drop k L)" by (simp add: L_def)
    then have "t \<in> set (objects (drop k L))" by (simp add: set_objects)
    moreover have "is_delete t"
      using assms(1) sv(1) m(2) by (simp add: is_delete_def is_create_def)
    ultimately have "m_id t \<in> tombstoned_ids (drop k L)"
      by (simp add: tombstoned_ids_def)
    with sv(3) m(2) show False by simp
  next
    case False
    then obtain j where j: "k = Suc (length pre + j)"
      using less_imp_Suc_add [of "length pre" k] by auto
    have "drop k L = drop j post"
      by (simp add: L_def j)
    with sv(2) have "Parsed m \<in> set post"
      by (auto dest: in_set_dropD)
    then have "m \<in> set (objects post)" by (simp add: set_objects)
    with assms(2) m(2) have "m_type m = JStr ''delete''" by blast
    with sv(1) show False by (simp add: is_create_def)
  qed
qed

subsection \<open>Regular runs keep the index and the log consistent\<close>


















subsection \<open>Unreadable log\<close>

text \<open>
  C10. When the log file cannot be read, \<^verbatim>\<open>readRecentMessages\<close> resolves to the empty
  array for every limit, and so the history endpoint answers with the empty array.
\<close>

theorem unreadable_log_gives_empty_history:
  "readRecentMessages limit None = [] \<and> get_messages p None = []"
  by (simp add: readRecentMessages_def get_messages_def)

theorem unreadable_log_gives_empty_history_witness:
  "readRecentMessages 200 None = [] \<and> get_messages (Some 10) None = []"
  using unreadable_log_gives_empty_history [of 200 "Some 10"] by simp

subsection \<open>Bounded suffix\<close>



subsection \<open>Chronological order\<close>



subsection \<open>The limit of the history endpoint\<close>

text \<open>
  C9, as amended. The effective limit of \<^verbatim>\<open>GET /messages\<close> is 200 when the parameter
  is absent or unparseable and also when it parses to 0; every other integer is
  clamped into the range from 1 to 1000. The effective limit is always in that range.
\<close>

theorem effective_limit_default_and_clamp:
  "effective_limit None = 200
   \<and> effective_limit (Some n) = (if n = 0 then 200 else max 1 (min 1000 n))
   \<and> 1 \<le> effective_limit p \<and> effective_limit p \<le> 1000"
  by (cases p) (simp_all add: effective_limit_def)

theorem effective_limit_default_and_clamp_witness:
  "effective_limit None = 200 \<and> effective_limit (Some 5000) = 1000
   \<and> effective_limit (Some (- 3)) = 1 \<and> effective_limit (Some 50) = 50"
  using effective_limit_default_and_clamp [of 5000 None]
    effective_limit_default_and_clamp [of "- 3" None]
    effective_limit_default_and_clamp [of 50 None]
  by simp

text \<open>
  C9 as stated fails at the supplied value 0: clamping 0 into the range gives 1, the
  handler uses 200.
\<close>

theorem effective_limit_zero_counterexample:
  "effective_limit (Some 0) = 200 \<and> max 1 (min 1000 (0::int)) = 1
   \<and> effective_limit (Some 0) \<noteq> max 1 (min 1000 0)"
  by (simp add: effective_limit_def)

subsection \<open>Ownership resolution\<close>

text \<open>
  C5. \<^verbatim>\<open>lookupMessageOwner\<close> scans the log from the most recent record backward and
  lets the first record with the id decide: a Delete record gives Deleted, a Create
  record gives Exists with that record's username, no match gives Unknown (as does a
  log that cannot be read). The delete handler takes this path for an id that is not
  in the Live Index, and acknowledges true exactly when the resolution is Exists with
  the requester as owner. The Create records of the log carry a username, as every
  payload of the \<^verbatim>\<open>message\<close> handler does.
\<close>

theorem lookup_resolves_from_tail:
  assumes "\<forall>obj\<in>set (objects lines).
             m_id obj = mid \<and> m_type obj \<noteq> JStr ''delete'' \<longrightarrow> truthy (m_username obj)"
  shows "outcome (lookupMessageOwner (Some lines) mid) = resolve_spec lines mid
         \<and> outcome (lookupMessageOwner None mid) = Unknown
         \<and> (messages s (JStr x) = None \<and> messagesFile s = Some lines \<and> mid = JStr x \<and> me \<noteq> []
              \<longrightarrow> fst (delete_message ok now me mid s) = (resolve_spec lines mid = Exists (JStr me)))"
proof -
  have "\<forall>obj\<in>set (objects (rev lines)).
          m_id obj = mid \<and> m_type obj \<noteq> JStr ''delete'' \<longrightarrow> truthy (m_username obj)"
    using assms by (simp add: set_objects)
  then have "outcome (lookup_loop (rev lines) mid) = resolve_spec lines mid"
    unfolding resolve_spec_def by (rule lookup_loop_char)
  then have res: "outcome (lookupMessageOwner (Some lines) mid) = resolve_spec lines mid"
    by (simp add: lookupMessageOwner_def)
  have unk: "outcome (lookupMessageOwner None mid) = Unknown"
    by (simp add: lookupMessageOwner_def outcome_def)
  have del: "fst (delete_message ok now me mid s) = (resolve_spec lines mid = Exists (JStr me))"
    if "messages s (JStr x) = None" "messagesFile s = Some lines" "mid = JStr x" "me \<noteq> []"
  proof -
    let ?i = "lookupMessageOwner (Some lines) (JStr x)"
    have "fst (delete_message ok now me mid s) =
          (\<not> info_deleted ?i \<and> truthy (info_owner ?i) \<and> info_owner ?i = JStr me)"
      using that by (auto simp: delete_message_def delete_commit_def Let_def)
    also have "\<dots> = (outcome ?i = Exists (JStr me))"
      using that(4) by (auto simp: outcome_def)
    finally show ?thesis
      using res that(3) by simp
  qed
  from res unk del show ?thesis by blast
qed

theorem lookup_resolves_from_tail_witness:
  "list_all (\<lambda>obj. truthy (m_username obj))
     (filter (\<lambda>obj. m_id obj = JStr ''m2'' \<and> m_type obj \<noteq> JStr ''delete'')
        (objects [Parsed (text_payload ''m1'' ''alice'' ''hi'' 100 JNull),
                  Parsed (text_payload ''m2'' ''bob'' ''yo'' 200 JNull),
                  Parsed (tombstone (JStr ''m1'') 300 ''alice'')]))
   \<and> outcome (lookupMessageOwner
        (Some [Parsed (text_payload ''m1'' ''alice'' ''hi'' 100 JNull),
               Parsed (text_payload ''m2'' ''bob'' ''yo'' 200 JNull),
               Parsed (tombstone (JStr ''m1'') 300 ''alice'')]) (JStr ''m2'')) =
      Exists (JStr ''bob'')
   \<and> fst (delete_message True 400 ''bob'' (JStr ''m2'')
        (init\<lparr>messagesFile :=
           Some [Parsed (text_payload ''m1'' ''alice'' ''hi'' 100 JNull),
                 Parsed (text_payload ''m2'' ''bob'' ''yo'' 200 JNull),
                 Parsed (tombstone (JStr ''m1'') 300 ''alice'')]\<rparr>))"
proof -
  let ?log = "[Parsed (text_payload ''m1'' ''alice'' ''hi'' 100 JNull),
               Parsed (text_payload ''m2'' ''bob'' ''yo'' 200 JNull),
               Parsed (tombstone (JStr ''m1'') 300 ''alice'')]"
  have h: "\<forall>obj\<in>set (objects ?log).
      m_id obj = JStr ''m2'' \<and> m_type obj \<noteq> JStr ''delete'' \<longrightarrow> truthy (m_username obj)"
    by (simp add: text_payload_def tombstone_def)
  have r: "resolve_spec ?log (JStr ''m2'') = Exists (JStr ''bob'')"
    by (simp add: resolve_spec_def text_payload_def tombstone_def)
  have pre: "messages (init\<lparr>messagesFile := Some ?log\<rparr>) (JStr ''m2'') = None
             \<and> messagesFile (init\<lparr>messagesFile := Some ?log\<rparr>) = Some ?log
             \<and> JStr ''m2'' = JStr ''m2'' \<and> ''bob'' \<noteq> []"
    by (simp add: init_def)
  have h': "list_all (\<lambda>obj. truthy (m_username obj))
     (filter (\<lambda>obj. m_id obj = JStr ''m2'' \<and> m_type obj \<noteq> JStr ''delete'') (objects ?log))"
    by (simp add: text_payload_def tombstone_def)
  show ?thesis
    using lookup_resolves_from_tail
      [OF h, of "init\<lparr>messagesFile := Some ?log\<rparr>" "''m2''" "''bob''" True 400] h' r pre
    by simp
qed

subsection \<open>Failed appends\<close>

text \<open>
  C3, as amended. A failed append is reported to nobody and the Live Index keeps the
  mutation made before the append was issued: after \<^verbatim>\<open>rememberMessage\<close> with a failed
  append the id is in the index and the file is as before; the delete handler gives
  the same acknowledgement and the same index whether its append fails or not, and
  after a failed append the file is as before.
\<close>

theorem failed_append_keeps_index_mutation:
  "messages (rememberMessage False m s) (m_id m) =
     Some \<lparr>rec_owner = m_username m, rec_type = m_type m,
           rec_url = (if truthy (m_url m) then m_url m else JNull)\<rparr>
   \<and> messagesFile (rememberMessage False m s) = messagesFile s
   \<and> fst (delete_message False now me mid s) = fst (delete_message True now me mid s)
   \<and> messages (snd (delete_message False now me mid s)) =
       messages (snd (delete_message True now me mid s))
   \<and> messagesFile (snd (delete_message False now me mid s)) = messagesFile s"
  by (simp add: rememberMessage_def appendFile_def delete_message_def delete_commit_def
      Let_def split: jval.splits)

theorem failed_append_keeps_index_mutation_witness:
  "messagesFile (rememberMessage False (text_payload ''m1'' ''alice'' ''hi'' 100 JNull) init)
     = messagesFile init
   \<and> fst (delete_message False 200 ''alice'' (JStr ''m1'')
        (rememberMessage True (text_payload ''m1'' ''alice'' ''hi'' 100 JNull) init))
   \<and> messagesFile (snd (delete_message False 200 ''alice'' (JStr ''m1'')
        (rememberMessage True (text_payload ''m1'' ''alice'' ''hi'' 100 JNull) init))) =
       Some [Parsed (text_payload ''m1'' ''alice'' ''hi'' 100 JNull)]"
proof -
  let ?m = "text_payload ''m1'' ''alice'' ''hi'' 100 JNull"
  have t: "fst (delete_message True 200 ''alice'' (JStr ''m1'') (rememberMessage True ?m init))"
    by (simp add: delete_message_def delete_commit_def rememberMessage_def
        text_payload_def init_def)
  have f: "messagesFile (rememberMessage True ?m init) = Some [Parsed ?m]"
    by (simp add: rememberMessage_def appendFile_def init_def)
  show ?thesis
    using failed_append_keeps_index_mutation [of ?m init 200 "''alice''" "JStr ''m1''"]
      failed_append_keeps_index_mutation
        [of ?m "rememberMessage True ?m init" 200 "''alice''" "JStr ''m1''"] t f
    by simp
qed

text \<open>
  C3 as stated fails: alice's message is created while the disk refuses the write.
  The message is in the Live Index, the log does not exist; her delete is then
  acknowledged with true although its append fails too.
\<close>

theorem failed_append_counterexample:
  "messages (rememberMessage False (text_payload ''m1'' ''alice'' ''hi'' 100 JNull) init)
     (JStr ''m1'') =
     Some \<lparr>rec_owner = JStr ''alice'', rec_type = JStr ''text'', rec_url = JNull\<rparr>
   \<and> messagesFile (rememberMessage False (text_payload ''m1'' ''alice'' ''hi'' 100 JNull) init)
       = None
   \<and> fst (delete_message False 200 ''alice'' (JStr ''m1'')
        (rememberMessage False (text_payload ''m1'' ''alice'' ''hi'' 100 JNull) init))
   \<and> messages (snd (delete_message False 200 ''alice'' (JStr ''m1'')
        (rememberMessage False (text_payload ''m1'' ''alice'' ''hi'' 100 JNull) init)))
       (JStr ''m1'') = None"
  by (simp add: rememberMessage_def appendFile_def delete_message_def delete_commit_def
      text_payload_def init_def)

subsection \<open>Round trip\<close>




subsection \<open>Idempotent deletion\<close>




subsection \<open>Tombstone permanence\<close>

text \<open>
  C2. Once a delete of an id has succeeded and its tombstone is in the log, the id is
  in no later result of \<^verbatim>\<open>readRecentMessages\<close>, for every limit (so for every limit
  of the history endpoint, which lies between 1 and 1000) and after every later
  sequence of creates, deletes and restarts, whether their appends succeed or not.
  The later creates carry ids of their own, as \<^verbatim>\<open>newId()\<close> provides.
\<close>

theorem tombstone_is_permanent:
  assumes "fst (delete_message True now me x s)"
    and "\<forall>r\<in>set rs. \<not> creates_id x r"
  shows "x \<notin> m_id ` set (readRecentMessages limit
            (messagesFile (run (snd (delete_message True now me x s)) rs)))
         \<and> x \<notin> m_id ` set (get_messages p
            (messagesFile (run (snd (delete_message True now me x s)) rs)))"
proof -
  let ?s1 = "snd (delete_message True now me x s)"
  let ?t = "tombstone x now me"
  have "?s1 = s\<lparr>messages := (messages s)(x := None),
             messagesFile := appendFile True (Parsed ?t) (messagesFile s),
             emitted := emitted s @ [x]\<rparr>"
    using delete_success_state [OF assms(1)] by simp
  then have f1: "file_lines ?s1 = file_lines s @ [Parsed ?t]"
    by (simp add: file_lines_def appendFile_def split: option.splits)
  obtain post where post: "file_lines (run ?s1 rs) = file_lines ?s1 @ post"
    "\<forall>m\<in>set (objects post). m_type m = JStr ''delete'' \<or> (\<exists>r\<in>set rs. creates_id (m_id m) r)"
    using run_appends by blast
  have lines: "file_lines (run ?s1 rs) = file_lines s @ Parsed ?t # post"
    using f1 post(1) by simp
  have ty: "m_type ?t = JStr ''delete''" and idt: "m_id ?t = x"
    by (simp_all add: tombstone_def)
  have nodup: "\<forall>m\<in>set (objects post). m_id m = m_id ?t \<longrightarrow> m_type m = JStr ''delete''"
    using post(2) assms(2) idt by auto
  have "\<And>l. m_id ?t \<notin> m_id ` set (recent_spec l (file_lines s @ Parsed ?t # post))"
    by (rule recent_excludes_tombstoned [OF ty nodup])
  then have "\<And>l. x \<notin> m_id ` set (readRecentMessages l (messagesFile (run ?s1 rs)))"
    by (simp only: recent_file_lines lines idt) simp
  then show ?thesis
    by (simp only: get_messages_def) simp
qed

theorem tombstone_is_permanent_witness:
  "fst (delete_message True 200 ''alice'' (JStr ''m1'')
          (rememberMessage True (text_payload ''m1'' ''alice'' ''hi'' 100 JNull) init))
   \<and> \<not> list_ex (creates_id (JStr ''m1''))
        [Create True (text_payload ''m2'' ''bob'' ''yo'' 300 JNull),
         Delete True 400 ''alice'' (JStr ''m1''),
         Restart,
         Create False (text_payload ''m3'' ''alice'' ''again'' 500 JNull)]
   \<and> JStr ''m1'' \<notin> m_id ` set (readRecentMessages 10
        (messagesFile (run (snd (delete_message True 200 ''alice'' (JStr ''m1'')
          (rememberMessage True (text_payload ''m1'' ''alice'' ''hi'' 100 JNull) init)))
          [Create True (text_payload ''m2'' ''bob'' ''yo'' 300 JNull),
           Delete True 400 ''alice'' (JStr ''m1''),
           Restart,
           Create False (text_payload ''m3'' ''alice'' ''again'' 500 JNull)])))"
proof -
  let ?s = "rememberMessage True (text_payload ''m1'' ''alice'' ''hi'' 100 JNull) init"
  let ?rs = "[Create True (text_payload ''m2'' ''bob'' ''yo'' 300 JNull),
              Delete True 400 ''alice'' (JStr ''m1''),
              Restart,
              Create False (text_payload ''m3'' ''alice'' ''again'' 500 JNull)]"
  have h1: "fst (delete_message True 200 ''alice'' (JStr ''m1'') ?s)"
    by (simp add: delete_message_def delete_commit_def rememberMessage_def
        text_payload_def init_def)
  have h2: "\<forall>r\<in>set ?rs. \<not> creates_id (JStr ''m1'') r"
    by (simp add: text_payload_def)
  have h2': "\<not> list_ex (creates_id (JStr ''m1'')) ?rs"
    using h2 by (simp only: list_ex_iff) blast
  show ?thesis
    using tombstone_is_permanent [OF h1 h2, of 10 None] h1 h2' by blast
qed

subsection \<open>Ownership invariant\<close>



end
